theory Spec2Isabelle
  imports Complex_Main "HOL-Library.AList" "HOL-Library.Log_Nat" "HOL-Library.Sublist"
begin

section \<open>Python values and dictionaries\<close>

text \<open>
  The arguments of a tool call are a Python \<open>Dict[str, Any]\<close> decoded from JSON. The values
  are modelled as the JSON scalars without floating-point numbers: \<open>None\<close>, booleans,
  unbounded integers and strings. Lists, nested dictionaries and floats as argument values
  are outside the model. Values are immutable; only the top-level argument dictionaries are
  objects of the store (see below).

  A dictionary is an association list in insertion order. \<open>d[k] = v\<close> overwrites the value of
  a key that is present, keeping its position, and appends a new key at the end; this is
  \<open>AList.update\<close>.
\<close>

datatype pyval =
    PNone
  | PBool bool
  | PInt int
  | PStr string

type_synonym pydict = "(string \<times> pyval) list"

section \<open>Decisions, tool results and exceptions\<close>

record reason =
  code :: string
  message :: string

record decision =
  decision_id :: string
  allow :: bool
  reasons :: "reason list"

text \<open>
  An item of \<open>result.content\<close> is either a dictionary or some other object (the class name
  is kept for the text of an \<open>AttributeError\<close>).
\<close>

datatype content_item = CDict pydict | CObject string

record tool_result =
  content :: "content_item list"

datatype denial_result = ByDecision decision | ByResult tool_result

text \<open>
  The exceptions that cross \<open>call_tool\<close>. \<open>ExternalError\<close> stands for any \<open>Exception\<close>
  raised inside a call of one of the two SDKs (policy client, MCP session); the SDKs do not
  know \<open>PolicyDeniedError\<close>, which is defined in \<open>client_example.py\<close>.
\<close>

datatype exn =
    RuntimeError string
  | ValueError string
  | TypeError string
  | OverflowError string
  | AttributeError string
  | KeyError string
  | PolicyDeniedError string denial_result
  | ExternalError string
  | PlainException string

fun is_policy_denied :: "exn \<Rightarrow> bool" where
  "is_policy_denied (PolicyDeniedError m r) = True"
| "is_policy_denied e = False"


definition dict_get :: "pydict \<Rightarrow> string \<Rightarrow> pyval option" where
  \<comment> \<open>\<open>d.get(k)\<close>, with \<open>None\<close> of the option type for a missing key\<close>
  "dict_get d k = map_of d k"

definition dict_get_default :: "pydict \<Rightarrow> string \<Rightarrow> pyval \<Rightarrow> pyval" where
  \<comment> \<open>\<open>d.get(k, default)\<close>\<close>
  "dict_get_default d k dflt = (case map_of d k of None \<Rightarrow> dflt | Some v \<Rightarrow> v)"

definition dict_item :: "pydict \<Rightarrow> string \<Rightarrow> exn + pyval" where
  \<comment> \<open>\<open>d[k]\<close>\<close>
  "dict_item d k = (case map_of d k of None \<Rightarrow> Inl (KeyError k) | Some v \<Rightarrow> Inr v)"

definition dict_mem :: "string \<Rightarrow> pydict \<Rightarrow> bool" where
  \<comment> \<open>\<open>k in d\<close>\<close>
  "dict_mem k d = (map_of d k \<noteq> None)"

definition dict_set :: "string \<Rightarrow> pyval \<Rightarrow> pydict \<Rightarrow> pydict" where
  \<comment> \<open>\<open>d[k] = v\<close>, returning the updated dictionary\<close>
  "dict_set k v d = AList.update k v d"

definition dict_spread :: "pydict \<Rightarrow> pydict \<Rightarrow> pydict" where
  \<comment> \<open>\<open>{**base, **items}\<close>: the entries of \<open>items\<close> are written over \<open>base\<close> in order\<close>
  "dict_spread base items = fold (\<lambda>(k, v). AList.update k v) items base"

section \<open>Tool-to-policy mapping\<close>

definition tool_to_policy_map :: "(string \<times> string) list" where
  "tool_to_policy_map =
    [(''merge_pull_request'', ''code.repository.merge.v1''),
     (''process_refund'', ''finance.payment.refund.v1''),
     (''export_customer_data'', ''data.export.create.v1''),
     (''publish_release'', ''code.release.publish.v1''),
     (''send_message'', ''messaging.message.send.v1''),
     (''execute_transaction'', ''finance.transaction.execute.v1''),
     (''access_data'', ''governance.data.access.v1''),
     (''crypto_trade'', ''finance.crypto.trade.v1''),
     (''ingest_report'', ''data.report.ingest.v1''),
     (''review_contract'', ''legal.contract.review.v1'')]"

fun join :: "string \<Rightarrow> string list \<Rightarrow> string" where
  \<comment> \<open>\<open>sep.join(xs)\<close>\<close>
  "join sep [] = []"
| "join sep [x] = x"
| "join sep (x # y # ys) = x @ sep @ join sep (y # ys)"

definition get_policy_id_for_tool :: "string \<Rightarrow> exn + string" where
  \<comment> \<open>\<open>_get_policy_id_for_tool\<close>; \<open>not policy_id\<close> holds for a missing key and for an empty string\<close>
  "get_policy_id_for_tool tool_name =
     (case map_of tool_to_policy_map tool_name of
        Some policy_id \<Rightarrow>
          if policy_id = [] then
            Inl (ValueError (''No policy mapping found for tool: '' @ tool_name @
                   ''. Available tools: '' @ join '', '' (map fst tool_to_policy_map)))
          else Inr policy_id
      | None \<Rightarrow>
          Inl (ValueError (''No policy mapping found for tool: '' @ tool_name @
                 ''. Available tools: '' @ join '', '' (map fst tool_to_policy_map))))"

section \<open>The client object\<close>

text \<open>
  \<open>self.aport_client\<close> and \<open>self.session\<close> are optional; the model keeps whether each is set.
\<close>

record client =
  agent_id :: string
  has_aport_client :: bool
  has_session :: bool

section \<open>Context builder\<close>

definition build_policy_context :: "client \<Rightarrow> string \<Rightarrow> pydict \<Rightarrow> pydict" where
  \<comment> \<open>\<open>_build_policy_context\<close>\<close>
  "build_policy_context c tool_name args =
     (let context = dict_spread [(''agent_id'', PStr (agent_id c))] args in
      if tool_name = ''merge_pull_request'' then
        (let context1 = dict_set ''base_branch''
                          (dict_get_default args ''base_branch'' (PStr ''main'')) context
         in dict_set ''pr_size_kb'' (dict_get_default args ''pr_size_kb'' (PInt 250)) context1)
      else if tool_name = ''process_refund'' then
        dict_set ''reason_code''
          (dict_get_default args ''reason_code'' (PStr ''customer_request'')) context
      else context)"

definition args_with_passport :: "client \<Rightarrow> pydict \<Rightarrow> pydict" where
  \<comment> \<open>\<open>{**current_args, "agent_id": self.agent_id}\<close> in \<open>call_tool\<close>\<close>
  "args_with_passport c current_args =
     dict_spread (dict_spread [] current_args) [(''agent_id'', PStr (agent_id c))]"

section \<open>Halving a value: \<open>int(v * 0.5)\<close>\<close>

text \<open>
  \<open>n * 0.5\<close> for an integer \<open>n\<close> first converts \<open>n\<close> to a double: the nearest double,
  ties to even on the 53-bit significand, and \<open>OverflowError\<close> when the rounded value does
  not fit (it reaches \<open>2 ^ 1024\<close>). The product with \<open>0.5\<close> is exact, and \<open>int\<close> truncates
  it towards zero. \<open>float_round\<close> is the value of the nearest double of a non-negative
  integer, as an integer.
\<close>

definition float_round :: "int \<Rightarrow> int" where
  "float_round n =
     (if bitlen n \<le> 53 then n
      else let e = nat (bitlen n - 53); q = n div 2 ^ e; r = n mod 2 ^ e; h = 2 ^ (e - 1)
           in (if r > h \<or> (r = h \<and> odd q) then q + 1 else q) * 2 ^ e)"

definition int_times_half :: "int \<Rightarrow> exn + int" where
  \<comment> \<open>\<open>int(n * 0.5)\<close> for an \<open>int\<close> \<open>n\<close>\<close>
  "int_times_half n =
     (let m = float_round \<bar>n\<bar> in
      if m \<ge> 2 ^ 1024 then Inl (OverflowError ''int too large to convert to float'')
      else Inr (sgn n * (m div 2)))"

fun int_of_half :: "pyval \<Rightarrow> exn + pyval" where
  \<comment> \<open>\<open>int(v * 0.5)\<close> for any value \<open>v\<close>\<close>
  "int_of_half (PInt n) = (case int_times_half n of Inl e \<Rightarrow> Inl e | Inr k \<Rightarrow> Inr (PInt k))"
| "int_of_half (PBool b) = Inr (PInt 0)"
| "int_of_half (PStr s) = Inl (TypeError (''can't multiply sequence by non-int of type 'float'' @ [CHR 0x27]))"
| "int_of_half PNone = Inl (TypeError (''unsupported operand type(s) for *: 'NoneType' and 'float'' @ [CHR 0x27]))"

section \<open>The store, the collaborators and the events of a call\<close>

text \<open>
  The caller's \<open>args\<close> and the working copy \<open>current_args\<close> are dictionary objects: a
  reference is an index into the store \<open>heap\<close>. The policy context and the dictionary sent
  to the MCP session are built afresh in every attempt, handed to a collaborator and never
  read again by \<open>call_tool\<close>; they are passed by value.

  The two collaborators are parameters of the model. Each is a function of its own state
  \<open>'w\<close> and its arguments that either raises (\<open>Inl\<close>, the text of the exception) or returns:
  \<open>verify_policy\<close> is \<open>self.aport_client.verify_policy(agent_id, policy_id, context)\<close>,
  \<open>session_call_tool\<close> is \<open>self.session.call_tool(tool_name, args_with_passport)\<close>.
  Cancellation of the coroutine is outside the model, and so are the \<open>print\<close> calls.

  A call produces the list of its events in order. \<open>EvAttempt\<close> marks the entry of the loop
  body: the attempt index, the reference of \<open>current_args\<close> and its contents at that moment.
  The other events are the calls that leave \<open>call_tool\<close>, each with the attempt index:
  verification (agent, policy, context, outcome), dispatch (tool, arguments, outcome) and
  \<open>asyncio.sleep\<close> (delay in seconds, an exact real).
\<close>

record 'w state =
  heap :: "pydict list"
  world :: 'w

record 'w env =
  verify_policy :: "'w \<Rightarrow> string \<Rightarrow> string \<Rightarrow> pydict \<Rightarrow> (string + decision) \<times> 'w"
  session_call_tool :: "'w \<Rightarrow> string \<Rightarrow> pydict \<Rightarrow> (string + tool_result) \<times> 'w"

datatype event =
    EvAttempt int nat pydict
  | EvVerify int string string pydict "string + decision"
  | EvExec int string pydict "string + tool_result"
  | EvSleep int real

record call_options =
  retry_on_denial :: bool
  max_retries :: int
  retry_backoff :: real
  skip_verification :: bool

section \<open>\<open>call_tool\<close>\<close>

subsection \<open>Step 1: verification\<close>

definition denial_reasons :: "decision \<Rightarrow> string" where
  "denial_reasons d =
     (if reasons d \<noteq> [] then join '', '' (map message (reasons d)) else ''Policy denied'')"

definition verify_step ::
  "'w env \<Rightarrow> client \<Rightarrow> string \<Rightarrow> pydict \<Rightarrow> int \<Rightarrow> 'w state \<Rightarrow> (exn + unit) \<times> event list \<times> 'w state"
where
  "verify_step env c tool_name current_args attempt s =
     (case get_policy_id_for_tool tool_name of
        Inl e \<Rightarrow> (Inl e, [], s)
      | Inr policy_id \<Rightarrow>
          (let context = build_policy_context c tool_name current_args;
               (outcome, w) = verify_policy env (world s) (agent_id c) policy_id context;
               ev = EvVerify attempt (agent_id c) policy_id context outcome;
               s1 = s\<lparr>world := w\<rparr>
           in case outcome of
                Inl msg \<Rightarrow> (Inl (ExternalError msg), [ev], s1)
              | Inr d \<Rightarrow>
                  if \<not> allow d then
                    (Inl (PolicyDeniedError (''Policy denied: '' @ denial_reasons d) (ByDecision d)),
                     [ev], s1)
                  else (Inr (), [ev], s1)))"

subsection \<open>Step 2: dispatch and the scan for a server-side denial\<close>

fun marker_in :: "pyval \<Rightarrow> exn + bool" where
  \<comment> \<open>\<open>"Policy denied" in text\<close>\<close>
  "marker_in (PStr t) = Inr (sublist ''Policy denied'' t)"
| "marker_in PNone = Inl (TypeError (''argument of type 'NoneType' is not iterable''))"
| "marker_in (PBool b) = Inl (TypeError (''argument of type 'bool' is not iterable''))"
| "marker_in (PInt n) = Inl (TypeError (''argument of type 'int' is not iterable''))"

fun py_str :: "pyval \<Rightarrow> string" where
  \<comment> \<open>\<open>str(v)\<close>, used on strings only\<close>
  "py_str (PStr t) = t"
| "py_str v = []"

fun scan_content :: "tool_result \<Rightarrow> content_item list \<Rightarrow> exn option" where
  \<comment> \<open>the loop over \<open>result.content\<close>: the exception it raises, if any\<close>
  "scan_content result [] = None"
| "scan_content result (CObject cls # rest) = scan_content result rest"
| "scan_content result (CDict d # rest) =
     (if dict_get d ''type'' = Some (PStr ''text'') then
        (let text = dict_get_default d ''text'' (PStr []) in
         case marker_in text of
           Inl e \<Rightarrow> Some e
         | Inr found \<Rightarrow>
             if found then Some (PolicyDeniedError (py_str text) (ByResult result))
             else scan_content result rest)
      else scan_content result rest)"

definition tool_step ::
  "'w env \<Rightarrow> client \<Rightarrow> string \<Rightarrow> pydict \<Rightarrow> int \<Rightarrow> 'w state
     \<Rightarrow> (exn + tool_result) \<times> event list \<times> 'w state"
where
  "tool_step env c tool_name current_args attempt s =
     (if \<not> has_session c then (Inl (RuntimeError ''Not connected to MCP server''), [], s)
      else
        (let awp = args_with_passport c current_args;
             (outcome, w) = session_call_tool env (world s) tool_name awp;
             ev = EvExec attempt tool_name awp outcome;
             s1 = s\<lparr>world := w\<rparr>
         in case outcome of
              Inl msg \<Rightarrow> (Inl (ExternalError msg), [ev], s1)
            | Inr result \<Rightarrow>
                (case scan_content result (content result) of
                   Some e \<Rightarrow> (Inl e, [ev], s1)
                 | None \<Rightarrow> (Inr result, [ev], s1))))"

definition try_block ::
  "'w env \<Rightarrow> client \<Rightarrow> string \<Rightarrow> call_options \<Rightarrow> nat \<Rightarrow> int \<Rightarrow> 'w state
     \<Rightarrow> (exn + tool_result) \<times> event list \<times> 'w state"
where
  "try_block env c tool_name opts cur attempt s =
     (if \<not> skip_verification opts then
        (case verify_step env c tool_name (heap s ! cur) attempt s of
           (Inl e, evs, s1) \<Rightarrow> (Inl e, evs, s1)
         | (Inr u, evs, s1) \<Rightarrow>
             (let (r, evs', s2) = tool_step env c tool_name (heap s1 ! cur) attempt s1
              in (r, evs @ evs', s2)))
      else tool_step env c tool_name (heap s ! cur) attempt s)"

subsection \<open>The two exception handlers\<close>

text \<open>
  The body of the loop ends in one of three ways: it returns the result, it raises, or it
  continues with the next attempt after storing the error in \<open>last_error\<close>.
\<close>

datatype flow = Return tool_result | Raise exn | Continue exn

definition adjust_args :: "string \<Rightarrow> pydict \<Rightarrow> exn + pydict" where
  \<comment> \<open>the adjustment of \<open>current_args\<close> before a retry after a denial\<close>
  "adjust_args tool_name current_args =
     (if tool_name = ''process_refund'' \<and> dict_mem ''amount'' current_args then
        (case dict_item current_args ''amount'' of
           Inl e \<Rightarrow> Inl e
         | Inr v \<Rightarrow> (case int_of_half v of
                       Inl e \<Rightarrow> Inl e
                     | Inr v' \<Rightarrow> Inr (dict_set ''amount'' v' current_args)))
      else if tool_name = ''export_customer_data'' \<and> dict_mem ''limit'' current_args then
        (case dict_item current_args ''limit'' of
           Inl e \<Rightarrow> Inl e
         | Inr v \<Rightarrow> (case int_of_half v of
                       Inl e \<Rightarrow> Inl e
                     | Inr v' \<Rightarrow> Inr (dict_set ''limit'' v' current_args)))
      else Inr current_args)"

definition backoff_delay :: "call_options \<Rightarrow> int \<Rightarrow> real" where
  \<comment> \<open>\<open>retry_backoff * (attempt + 1)\<close>\<close>
  "backoff_delay opts attempt = retry_backoff opts * real_of_int (attempt + 1)"

definition on_policy_denied ::
  "string \<Rightarrow> call_options \<Rightarrow> nat \<Rightarrow> int \<Rightarrow> exn \<Rightarrow> 'w state \<Rightarrow> flow \<times> event list \<times> 'w state"
where
  \<comment> \<open>\<open>except PolicyDeniedError as error\<close>; an exception of the adjustment leaves the handler\<close>
  "on_policy_denied tool_name opts cur attempt error s =
     (if retry_on_denial opts \<and> attempt < max_retries opts - 1 then
        (case adjust_args tool_name (heap s ! cur) of
           Inl e \<Rightarrow> (Raise e, [], s)
         | Inr d \<Rightarrow>
             (Continue error, [EvSleep attempt (backoff_delay opts attempt)],
              s\<lparr>heap := (heap s)[cur := d]\<rparr>))
      else (Raise error, [], s))"

definition on_exception ::
  "call_options \<Rightarrow> int \<Rightarrow> exn \<Rightarrow> 'w state \<Rightarrow> flow \<times> event list \<times> 'w state"
where
  \<comment> \<open>\<open>except Exception as error\<close>\<close>
  "on_exception opts attempt error s =
     (if attempt < max_retries opts - 1 then
        (Continue error, [EvSleep attempt (backoff_delay opts attempt)], s)
      else (Raise error, [], s))"

definition attempt_body ::
  "'w env \<Rightarrow> client \<Rightarrow> string \<Rightarrow> call_options \<Rightarrow> nat \<Rightarrow> int \<Rightarrow> 'w state
     \<Rightarrow> flow \<times> event list \<times> 'w state"
where
  "attempt_body env c tool_name opts cur attempt s =
     (case try_block env c tool_name opts cur attempt s of
        (Inr result, evs, s1) \<Rightarrow> (Return result, EvAttempt attempt cur (heap s ! cur) # evs, s1)
      | (Inl error, evs, s1) \<Rightarrow>
          (let (fl, evs', s2) =
                 (if is_policy_denied error then on_policy_denied tool_name opts cur attempt error s1
                  else on_exception opts attempt error s1)
           in (fl, EvAttempt attempt cur (heap s ! cur) # evs @ evs', s2)))"

subsection \<open>The loop\<close>

fun digit_char :: "nat \<Rightarrow> char" where
  "digit_char n = char_of (48 + n)"

fun str_of_nat :: "nat \<Rightarrow> string" where
  "str_of_nat n = (if n < 10 then [digit_char n] else str_of_nat (n div 10) @ [digit_char (n mod 10)])"

definition str_of_int :: "int \<Rightarrow> string" where
  \<comment> \<open>\<open>str(i)\<close> for an \<open>int\<close>\<close>
  "str_of_int i = (if i < 0 then CHR ''-'' # str_of_nat (nat (- i)) else str_of_nat (nat i))"

fun attempts_loop ::
  "'w env \<Rightarrow> client \<Rightarrow> string \<Rightarrow> call_options \<Rightarrow> nat \<Rightarrow> exn option \<Rightarrow> int list \<Rightarrow> 'w state
     \<Rightarrow> (exn + tool_result) \<times> event list \<times> 'w state"
where
  \<comment> \<open>\<open>for attempt in range(max_retries)\<close> and the \<open>raise\<close> after the loop\<close>
  "attempts_loop env c tool_name opts cur last_error [] s =
     (Inl (case last_error of
             Some e \<Rightarrow> e
           | None \<Rightarrow> PlainException (''Failed to call '' @ tool_name @ '' after '' @
                                     str_of_int (max_retries opts) @ '' attempts'')),
      [], s)"
| "attempts_loop env c tool_name opts cur last_error (attempt # rest) s =
     (case attempt_body env c tool_name opts cur attempt s of
        (Return result, evs, s1) \<Rightarrow> (Inr result, evs, s1)
      | (Raise e, evs, s1) \<Rightarrow> (Inl e, evs, s1)
      | (Continue e, evs, s1) \<Rightarrow>
          (let (out, evs', s2) = attempts_loop env c tool_name opts cur (Some e) rest s1
           in (out, evs @ evs', s2)))"

definition call_tool ::
  "'w env \<Rightarrow> client \<Rightarrow> string \<Rightarrow> nat \<Rightarrow> call_options \<Rightarrow> 'w state
     \<Rightarrow> (exn + tool_result) \<times> event list \<times> 'w state"
where
  \<comment> \<open>\<open>args\<close> is the reference of the caller's dictionary; \<open>args.copy()\<close> allocates the copy\<close>
  "call_tool env c tool_name args opts s =
     (if \<not> has_aport_client c then (Inl (RuntimeError ''APort client not initialized''), [], s)
      else
        (let cur = length (heap s);
             s1 = s\<lparr>heap := heap s @ [heap s ! args]\<rparr>
         in attempts_loop env c tool_name opts cur None [0..max_retries opts - 1] s1))"

section \<open>The OpenAI wrapper\<close>





section \<open>Reading the events of a call\<close>

fun is_attempt :: "event \<Rightarrow> bool" where
  "is_attempt (EvAttempt i r ca) = True"
| "is_attempt ev = False"

fun is_verify :: "event \<Rightarrow> bool" where
  "is_verify (EvVerify i a p ctx out) = True"
| "is_verify ev = False"

fun is_exec :: "event \<Rightarrow> bool" where
  "is_exec (EvExec i t a out) = True"
| "is_exec ev = False"

fun is_sleep :: "event \<Rightarrow> bool" where
  "is_sleep (EvSleep i d) = True"
| "is_sleep ev = False"

fun event_attempt :: "event \<Rightarrow> int" where
  \<comment> \<open>the attempt index of an event\<close>
  "event_attempt (EvAttempt i r ca) = i"
| "event_attempt (EvVerify i a p ctx out) = i"
| "event_attempt (EvExec i t a out) = i"
| "event_attempt (EvSleep i d) = i"

fun attempt_args :: "event list \<Rightarrow> pydict list" where
  \<comment> \<open>the contents of \<open>current_args\<close> at the entry of each attempt, in order\<close>
  "attempt_args [] = []"
| "attempt_args (EvAttempt i r ca # evs) = ca # attempt_args evs"
| "attempt_args (ev # evs) = attempt_args evs"

definition exec_gated :: "client \<Rightarrow> string \<Rightarrow> event list \<Rightarrow> bool" where
  \<comment> \<open>every dispatch comes right after the entry of its attempt and an allowing verification\<close>
  "exec_gated c tool_name evs =
     (\<forall>pre i tn awp out post. evs = pre @ EvExec i tn awp out # post \<longrightarrow>
        (\<exists>pre' r ca pid d.
            pre = pre' @ [EvAttempt i r ca,
                          EvVerify i (agent_id c) pid (build_policy_context c tool_name ca) (Inr d)]
            \<and> allow d \<and> tn = tool_name \<and> awp = args_with_passport c ca
            \<and> get_policy_id_for_tool tool_name = Inr pid))"

fun attempt_refs :: "event list \<Rightarrow> nat list" where
  \<comment> \<open>the reference of \<open>current_args\<close> at the entry of each attempt, in order\<close>
  "attempt_refs [] = []"
| "attempt_refs (EvAttempt i r ca # evs) = r # attempt_refs evs"
| "attempt_refs (ev # evs) = attempt_refs evs"


section \<open>Scenarios\<close>

text \<open>
  Concrete clients, collaborators and options on which the theorems below are evaluated.
\<close>

definition gw :: client where
  "gw = \<lparr>agent_id = ''ap_gateway'', has_aport_client = True, has_session = True\<rparr>"

definition ok_result :: tool_result where
  "ok_result = \<lparr>content = [CDict [(''type'', PStr ''text''), (''text'', PStr ''ok'')]]\<rparr>"


definition allow_decision :: decision where
  "allow_decision = \<lparr>decision_id = ''dec_1'', allow = True, reasons = []\<rparr>"

definition deny_decision :: decision where
  "deny_decision =
     \<lparr>decision_id = ''dec_2'', allow = False,
      reasons = [\<lparr>code = ''limit'', message = ''amount over limit''\<rparr>]\<rparr>"

definition allow_all :: "unit env" where
  \<comment> \<open>the authority allows, the server executes\<close>
  "allow_all =
     \<lparr>verify_policy = (\<lambda>w agent policy_id context. (Inr allow_decision, w)),
      session_call_tool = (\<lambda>w tool_name arguments. (Inr ok_result, w))\<rparr>"

definition deny_all :: "unit env" where
  \<comment> \<open>the authority denies every request\<close>
  "deny_all =
     \<lparr>verify_policy = (\<lambda>w agent policy_id context. (Inr deny_decision, w)),
      session_call_tool = (\<lambda>w tool_name arguments. (Inr ok_result, w))\<rparr>"


definition default_options :: call_options where
  \<comment> \<open>the defaults of the keyword parameters of \<open>call_tool\<close>\<close>
  "default_options =
     \<lparr>retry_on_denial = False, max_retries = 3, retry_backoff = 1, skip_verification = False\<rparr>"

definition retry_options :: call_options where
  \<comment> \<open>\<open>retry_on_denial=True, max_retries=3\<close>, as the examples call it\<close>
  "retry_options =
     \<lparr>retry_on_denial = True, max_retries = 3, retry_backoff = 1, skip_verification = False\<rparr>"

definition refund_store :: "unit state" where
  \<comment> \<open>a store that holds the caller's arguments of a refund at reference 0\<close>
  "refund_store =
     \<lparr>heap = [[(''amount'', PInt 1000000), (''currency'', PStr ''USD'')]], world = ()\<rparr>"

definition message_store :: "unit state" where
  "message_store =
     \<lparr>heap = [[(''agent_id'', PStr ''ap_other''), (''channel'', PStr ''ops'')]], world = ()\<rparr>"



section \<open>Dictionaries\<close>

lemma map_of_dict_spread:
  "distinct (map fst items) \<Longrightarrow> map_of (dict_spread base items) = map_of base ++ map_of items"
  unfolding dict_spread_def
proof (induction items arbitrary: base)
  case Nil
  then show ?case by simp
next
  case (Cons x xs)
  obtain k v where x: "x = (k, v)" by (cases x)
  from Cons.prems x have notin: "map_of xs k = None" and d: "distinct (map fst xs)"
    by (auto simp: map_of_eq_None_iff)
  have "map_of (fold (\<lambda>(k, v). AList.update k v) xs (AList.update k v base))
          = map_of (AList.update k v base) ++ map_of xs"
    by (rule Cons.IH[OF d])
  also have "\<dots> = (map_of base)(k \<mapsto> v) ++ map_of xs"
    by (simp only: update_conv')
  also have "\<dots> = map_of base ++ (map_of xs)(k \<mapsto> v)"
    using notin by (auto simp: map_add_def fun_eq_iff split: option.splits)
  finally have fin: "map_of (fold (\<lambda>(k, v). AList.update k v) xs (AList.update k v base))
          = map_of base ++ (map_of xs)(k \<mapsto> v)" .
  have l: "fold (\<lambda>(k, v). AList.update k v) (x # xs) base
         = fold (\<lambda>(k, v). AList.update k v) xs (AList.update k v base)"
    using x by simp
  have r: "map_of (x # xs) = (map_of xs)(k \<mapsto> v)"
    using x by simp
  show ?case unfolding l r by (rule fin)
qed

lemma dict_get_set: "dict_get (dict_set k v d) k' = (if k' = k then Some v else dict_get d k')"
  by (simp add: dict_get_def dict_set_def update_conv')

lemma dict_get_spread:
  "distinct (map fst items) \<Longrightarrow>
   dict_get (dict_spread base items) k =
     (case dict_get items k of Some v \<Rightarrow> Some v | None \<Rightarrow> dict_get base k)"
  by (simp add: dict_get_def map_of_dict_spread map_add_def split: option.splits)

lemma dict_get_default_eq:
  "dict_get_default d k dflt = (case dict_get d k of None \<Rightarrow> dflt | Some v \<Rightarrow> v)"
  by (simp add: dict_get_default_def dict_get_def)

lemma dict_get_single: "dict_get [(k, v)] k' = (if k' = k then Some v else None)"
  by (simp add: dict_get_def)

lemma context_lookup:
  assumes "distinct (map fst args)"
  shows "dict_get (build_policy_context c tool_name args) k =
     (case dict_get args k of
        Some v \<Rightarrow> Some v
      | None \<Rightarrow>
          if k = ''agent_id'' then Some (PStr (agent_id c))
          else if tool_name = ''merge_pull_request'' \<and> k = ''base_branch'' then Some (PStr ''main'')
          else if tool_name = ''merge_pull_request'' \<and> k = ''pr_size_kb'' then Some (PInt 250)
          else if tool_name = ''process_refund'' \<and> k = ''reason_code''
            then Some (PStr ''customer_request'')
          else None)"
  using assms
  by (simp add: build_policy_context_def Let_def dict_get_set dict_get_spread dict_get_default_eq
      dict_get_single split: option.splits)

lemma passport_agent_id:
  "dict_get (args_with_passport c current_args) ''agent_id'' = Some (PStr (agent_id c))"
  by (simp add: args_with_passport_def dict_get_def dict_spread_def update_conv')

section \<open>The policy context\<close>

text \<open>
  Claim C8, as amended. For a dictionary \<open>args\<close> (distinct keys), the context holds every
  entry of \<open>args\<close> with the caller's value. A key that the caller omitted is filled in:
  \<open>agent_id\<close> with the identity of the client, \<open>base_branch\<close> and \<open>pr_size_kb\<close> for
  \<open>merge_pull_request\<close>, \<open>reason_code\<close> for \<open>process_refund\<close>. Nothing else is in the context.
  The identity is one of these defaults: the context carries it only when the caller
  supplied no \<open>agent_id\<close> of its own.
\<close>

theorem build_policy_context_entries:
  assumes "distinct (map fst args)"
  shows "dict_get (build_policy_context c tool_name args) k =
     (case dict_get args k of
        Some v \<Rightarrow> Some v
      | None \<Rightarrow>
          if k = ''agent_id'' then Some (PStr (agent_id c))
          else if tool_name = ''merge_pull_request'' \<and> k = ''base_branch'' then Some (PStr ''main'')
          else if tool_name = ''merge_pull_request'' \<and> k = ''pr_size_kb'' then Some (PInt 250)
          else if tool_name = ''process_refund'' \<and> k = ''reason_code''
            then Some (PStr ''customer_request'')
          else None)"
  using assms by (rule context_lookup)

theorem build_policy_context_entries_witness:
  "distinct (map fst [(''repository'', PStr ''org/repo''), (''pr_size_kb'', PInt 12)])
   \<and> dict_get (build_policy_context gw ''merge_pull_request''
        [(''repository'', PStr ''org/repo''), (''pr_size_kb'', PInt 12)]) ''pr_size_kb''
       = Some (PInt 12)"
proof -
  have d: "distinct (map fst [(''repository'', PStr ''org/repo''), (''pr_size_kb'', PInt 12)])"
    by simp
  from build_policy_context_entries[OF d, of gw "''merge_pull_request''" "''pr_size_kb''"] d
  show ?thesis by (simp add: dict_get_def)
qed

text \<open>
  Claim C8 as stated fails: when the caller's arguments have an \<open>agent_id\<close>, the spread
  writes it over the identity, and the context does not contain the identity at all.
\<close>

theorem build_policy_context_identity_counterexample:
  "build_policy_context gw ''send_message'' [(''agent_id'', PStr ''ap_other'')]
     = [(''agent_id'', PStr ''ap_other'')]
   \<and> dict_get (build_policy_context gw ''send_message'' [(''agent_id'', PStr ''ap_other'')])
       ''agent_id'' \<noteq> Some (PStr (agent_id gw))"
  by (simp add: build_policy_context_def dict_spread_def dict_get_def gw_def)

section \<open>The steps of one attempt\<close>

lemma verify_step_heap:
  "verify_step env c tool_name ca attempt s = (r, evs, s1) \<Longrightarrow> heap s1 = heap s"
  by (auto simp: verify_step_def Let_def split: sum.splits prod.splits if_splits)

lemma tool_step_heap:
  "tool_step env c tool_name ca attempt s = (r, evs, s1) \<Longrightarrow> heap s1 = heap s"
  by (auto simp: tool_step_def Let_def split: sum.splits prod.splits if_splits option.splits)

lemma verify_step_events:
  assumes "verify_step env c tool_name ca attempt s = (r, evs, s1)"
  shows "(evs = [] \<and> (\<exists>e. r = Inl e)) \<or>
         (\<exists>pid out. get_policy_id_for_tool tool_name = Inr pid \<and>
            evs = [EvVerify attempt (agent_id c) pid (build_policy_context c tool_name ca) out] \<and>
            ((\<exists>u. r = Inr u) \<longrightarrow> (\<exists>d. out = Inr d \<and> allow d)))"
  using assms
  by (auto simp: verify_step_def Let_def split: sum.splits prod.splits if_splits)

lemma tool_step_events:
  assumes "tool_step env c tool_name ca attempt s = (r, evs, s1)"
  shows "(evs = [] \<and> (\<exists>e. r = Inl e)) \<or>
         (\<exists>out. evs = [EvExec attempt tool_name (args_with_passport c ca) out])"
  using assms
  by (auto simp: tool_step_def Let_def split: sum.splits prod.splits if_splits option.splits)

lemma try_block_heap:
  "try_block env c tool_name opts cur attempt s = (r, evs, s1) \<Longrightarrow> heap s1 = heap s"
  by (auto simp: try_block_def split: sum.splits prod.splits if_splits
           dest!: verify_step_heap tool_step_heap)

lemma try_block_events:
  assumes "try_block env c tool_name opts cur attempt s = (r, evs, s1)"
    and "\<not> skip_verification opts"
  shows "evs = [] \<or>
         (\<exists>pid out. evs = [EvVerify attempt (agent_id c) pid
                              (build_policy_context c tool_name (heap s ! cur)) out]) \<or>
         (\<exists>pid d out. get_policy_id_for_tool tool_name = Inr pid \<and> allow d \<and>
             evs = [EvVerify attempt (agent_id c) pid
                      (build_policy_context c tool_name (heap s ! cur)) (Inr d),
                    EvExec attempt tool_name (args_with_passport c (heap s ! cur)) out])"
proof -
  obtain r1 evs1 s' where v: "verify_step env c tool_name (heap s ! cur) attempt s = (r1, evs1, s')"
    by (cases "verify_step env c tool_name (heap s ! cur) attempt s") auto
  note ve = verify_step_events[OF v] and vh = verify_step_heap[OF v]
  show ?thesis
  proof (cases r1)
    case (Inl e)
    with v assms have "evs = evs1" by (simp add: try_block_def)
    with ve show ?thesis by auto
  next
    case (Inr u)
    obtain r2 evs2 s2 where t: "tool_step env c tool_name (heap s' ! cur) attempt s' = (r2, evs2, s2)"
      by (cases "tool_step env c tool_name (heap s' ! cur) attempt s'") auto
    from v Inr t assms have e: "evs = evs1 @ evs2" by (simp add: try_block_def)
    from tool_step_events[OF t] ve Inr e vh show ?thesis by auto
  qed
qed

lemma try_block_calls:
  assumes "try_block env c tool_name opts cur attempt s = (r, evs, s1)"
  shows "\<forall>ev\<in>set evs. (is_verify ev \<or> is_exec ev) \<and> event_attempt ev = attempt"
  using assms
  by (auto simp: try_block_def verify_step_def tool_step_def Let_def
        split: sum.splits prod.splits if_splits option.splits)

lemma attempt_body_shape:
  assumes "attempt_body env c tool_name opts cur attempt s = (fl, evs, s')"
  shows "\<exists>r mid s1 tl. try_block env c tool_name opts cur attempt s = (r, mid, s1)
           \<and> evs = EvAttempt attempt cur (heap s ! cur) # mid @ tl
           \<and> ((tl = [] \<and> (\<forall>e. fl \<noteq> Continue e))
              \<or> (tl = [EvSleep attempt (backoff_delay opts attempt)] \<and> (\<exists>e. fl = Continue e)
                  \<and> attempt < max_retries opts - 1))"
  using assms
  by (auto simp: attempt_body_def on_policy_denied_def on_exception_def Let_def
        split: sum.splits prod.splits if_splits)

lemma attempt_body_events_prefix:
  assumes "try_block env c tool_name opts cur attempt s = (r, evs, s1)"
  shows "\<exists>tl. fst (snd (attempt_body env c tool_name opts cur attempt s))
           = EvAttempt attempt cur (heap s ! cur) # evs @ tl"
  using assms by (auto simp: attempt_body_def Let_def split: sum.splits prod.splits)

lemma try_block_allowed:
  assumes "\<not> skip_verification opts" and "has_session c"
    and "get_policy_id_for_tool tool_name = Inr pid"
    and "verify_policy env (world s) (agent_id c) pid
           (build_policy_context c tool_name (heap s ! cur)) = (Inr d, w)"
    and "allow d"
  shows "fst (snd (try_block env c tool_name opts cur attempt s)) =
           [EvVerify attempt (agent_id c) pid (build_policy_context c tool_name (heap s ! cur)) (Inr d),
            EvExec attempt tool_name (args_with_passport c (heap s ! cur))
              (fst (session_call_tool env w tool_name (args_with_passport c (heap s ! cur))))]"
  using assms
  by (simp add: try_block_def verify_step_def tool_step_def Let_def
        split: sum.splits prod.splits option.splits)

section \<open>The loop, by induction on the attempts\<close>

lemma append_eq_append_Cons:
  "a @ b = pre @ x # post \<Longrightarrow>
     (\<exists>post'. a = pre @ x # post' \<and> post = post' @ b) \<or> (\<exists>pre'. b = pre' @ x # post \<and> pre = a @ pre')"
  by (auto simp: append_eq_append_conv2 append_eq_Cons_conv)

lemma attempts_loop_events:
  assumes "attempts_loop env c tool_name opts cur le as s = (out, evs, s')"
    and "\<And>attempt s fl blk s'. attempt \<in> set as \<Longrightarrow>
           attempt_body env c tool_name opts cur attempt s = (fl, blk, s') \<Longrightarrow> P blk"
    and "P []"
    and "\<And>a b. P a \<Longrightarrow> P b \<Longrightarrow> P (a @ b)"
  shows "P evs"
  using assms(1,2)
proof (induction as arbitrary: le s out evs s')
  case Nil
  then show ?case using assms(3) by simp
next
  case (Cons a as)
  obtain fl blk s1 where b: "attempt_body env c tool_name opts cur a s = (fl, blk, s1)"
    by (cases "attempt_body env c tool_name opts cur a s") auto
  have pb: "P blk" using Cons.prems(2)[OF _ b] by simp
  show ?case
  proof (cases fl)
    case (Continue e)
    obtain out2 evs2 s2 where r: "attempts_loop env c tool_name opts cur (Some e) as s1 = (out2, evs2, s2)"
      by (cases "attempts_loop env c tool_name opts cur (Some e) as s1") auto
    have "P evs2"
    proof (rule Cons.IH[OF r])
      fix attempt s fl blk s'
      assume "attempt \<in> set as" "attempt_body env c tool_name opts cur attempt s = (fl, blk, s')"
      then show "P blk" using Cons.prems(2)[of attempt s fl blk s'] by simp
    qed
    moreover from Cons.prems(1) b Continue r have "evs = blk @ evs2" by simp
    ultimately show ?thesis using pb assms(4) by simp
  next
    case (Return x)
    with Cons.prems(1) b have "evs = blk" by simp
    with pb show ?thesis by simp
  next
    case (Raise x)
    with Cons.prems(1) b have "evs = blk" by simp
    with pb show ?thesis by simp
  qed
qed

lemma call_tool_events:
  assumes "call_tool env c tool_name args opts s = (out, evs, s')"
    and "\<And>attempt s fl blk s'. 0 \<le> attempt \<Longrightarrow> attempt < max_retries opts \<Longrightarrow>
           attempt_body env c tool_name opts (length (heap s0)) attempt s = (fl, blk, s') \<Longrightarrow> P blk"
    and "P []"
    and "\<And>a b. P a \<Longrightarrow> P b \<Longrightarrow> P (a @ b)"
    and "s0 = s"
  shows "P evs"
proof (cases "has_aport_client c")
  case False
  with assms(1) have "evs = []" by (simp add: call_tool_def)
  with assms(3) show ?thesis by simp
next
  case True
  with assms(1) have
    "attempts_loop env c tool_name opts (length (heap s)) None [0..max_retries opts - 1]
       (s\<lparr>heap := heap s @ [heap s ! args]\<rparr>) = (out, evs, s')"
    by (simp add: call_tool_def Let_def)
  then show ?thesis
  proof (rule attempts_loop_events)
    fix attempt s1 fl blk s2
    assume "attempt \<in> set [0..max_retries opts - 1]"
      and "attempt_body env c tool_name opts (length (heap s)) attempt s1 = (fl, blk, s2)"
    then show "P blk" using assms(2)[of attempt s1 fl blk s2] assms(5) by simp
  qed (use assms(3,4) in auto)
qed

section \<open>Dispatch is gated by verification\<close>

lemma exec_gated_Nil: "exec_gated c tool_name []"
  by (simp add: exec_gated_def)

lemma exec_gated_append:
  assumes "exec_gated c tool_name a" and "exec_gated c tool_name b"
  shows "exec_gated c tool_name (a @ b)"
  unfolding exec_gated_def
proof (intro allI impI)
  fix pre i tn awp out post
  assume "a @ b = pre @ EvExec i tn awp out # post"
  from append_eq_append_Cons[OF this]
  show "\<exists>pre' r ca pid d.
            pre = pre' @ [EvAttempt i r ca,
                          EvVerify i (agent_id c) pid (build_policy_context c tool_name ca) (Inr d)]
            \<and> allow d \<and> tn = tool_name \<and> awp = args_with_passport c ca
            \<and> get_policy_id_for_tool tool_name = Inr pid"
  proof
    assume "\<exists>post'. a = pre @ EvExec i tn awp out # post' \<and> post = post' @ b"
    with assms(1) show ?thesis unfolding exec_gated_def by blast
  next
    assume "\<exists>pre'. b = pre' @ EvExec i tn awp out # post \<and> pre = a @ pre'"
    then obtain p where b: "b = p @ EvExec i tn awp out # post" and pre: "pre = a @ p" by blast
    from assms(2) b obtain pre' r ca pid d where
      "p = pre' @ [EvAttempt i r ca,
                   EvVerify i (agent_id c) pid (build_policy_context c tool_name ca) (Inr d)]"
      "allow d" "tn = tool_name" "awp = args_with_passport c ca"
      "get_policy_id_for_tool tool_name = Inr pid"
      unfolding exec_gated_def by blast
    with pre show ?thesis by (intro exI[of _ "a @ pre'"]) auto
  qed
qed

lemma exec_gated_block:
  assumes "attempt_body env c tool_name opts cur attempt s = (fl, evs, s')"
    and "\<not> skip_verification opts"
  shows "exec_gated c tool_name evs"
proof -
  from attempt_body_shape[OF assms(1)] obtain r mid s1 tl where
    t: "try_block env c tool_name opts cur attempt s = (r, mid, s1)"
    and e: "evs = EvAttempt attempt cur (heap s ! cur) # mid @ tl"
    and tl: "tl = [] \<or> tl = [EvSleep attempt (backoff_delay opts attempt)]"
    by blast
  from try_block_events[OF t assms(2)] e tl show ?thesis
    unfolding exec_gated_def
    by (elim disjE exE conjE) (auto simp: Cons_eq_append_conv append_eq_Cons_conv)
qed

text \<open>
  Claim C1. With \<open>skip_verification\<close> off, every dispatch to the tool executor in the events
  of a call comes right after the entry of its attempt and a verification of the same
  attempt that returned an allowing decision. The verified context was built from the
  contents of \<open>current_args\<close> at the entry of that attempt, and the dispatched arguments are
  these contents with the identity attached.
\<close>

theorem dispatch_only_after_allow:
  assumes "call_tool env c tool_name args opts s = (out, evs, s')"
    and "\<not> skip_verification opts"
    and "evs = pre @ EvExec i tn awp res # post"
  shows "\<exists>pre' r current_args policy_id d.
           pre = pre' @ [EvAttempt i r current_args,
                         EvVerify i (agent_id c) policy_id
                           (build_policy_context c tool_name current_args) (Inr d)]
           \<and> allow d \<and> tn = tool_name \<and> awp = args_with_passport c current_args
           \<and> get_policy_id_for_tool tool_name = Inr policy_id"
proof -
  have "exec_gated c tool_name evs"
    using assms(1)
  proof (rule call_tool_events)
    fix attempt s1 fl blk s2
    assume "attempt_body env c tool_name opts (length (heap s)) attempt s1 = (fl, blk, s2)"
    then show "exec_gated c tool_name blk" using assms(2) by (rule exec_gated_block)
  qed (auto intro: exec_gated_Nil exec_gated_append)
  with assms(3) show ?thesis unfolding exec_gated_def by blast
qed

theorem dispatch_only_after_allow_witness:
  "\<exists>pre' r current_args policy_id d.
     [EvAttempt 0 1 [(''agent_id'', PStr ''ap_other''), (''channel'', PStr ''ops'')],
      EvVerify 0 ''ap_gateway'' ''messaging.message.send.v1''
        [(''agent_id'', PStr ''ap_other''), (''channel'', PStr ''ops'')] (Inr allow_decision)]
       = pre' @ [EvAttempt 0 r current_args,
                 EvVerify 0 (agent_id gw) policy_id
                   (build_policy_context gw ''send_message'' current_args) (Inr d)]
     \<and> allow d \<and> ''send_message'' = ''send_message''
     \<and> [(''agent_id'', PStr ''ap_gateway''), (''channel'', PStr ''ops'')]
         = args_with_passport gw current_args
     \<and> get_policy_id_for_tool ''send_message'' = Inr policy_id"
proof -
  have run: "call_tool allow_all gw ''send_message'' 0 default_options message_store =
     (Inr ok_result,
      [EvAttempt 0 1 [(''agent_id'', PStr ''ap_other''), (''channel'', PStr ''ops'')],
       EvVerify 0 ''ap_gateway'' ''messaging.message.send.v1''
         [(''agent_id'', PStr ''ap_other''), (''channel'', PStr ''ops'')] (Inr allow_decision)]
      @ EvExec 0 ''send_message'' [(''agent_id'', PStr ''ap_gateway''), (''channel'', PStr ''ops'')]
          (Inr ok_result) # [],
      \<lparr>heap = [[(''agent_id'', PStr ''ap_other''), (''channel'', PStr ''ops'')],
               [(''agent_id'', PStr ''ap_other''), (''channel'', PStr ''ops'')]], world = ()\<rparr>)"
    by code_simp
  have skip: "\<not> skip_verification default_options"
    by (simp add: default_options_def)
  show ?thesis
    by (rule dispatch_only_after_allow[OF run skip refl])
qed

section \<open>The identity seen by verification and by dispatch\<close>

text \<open>
  Claim C10. When the arguments have the key \<open>agent_id\<close>, the policy context carries the
  caller's value of it, and the arguments sent to the executor carry the identity of the
  client. In an attempt whose verification allows, the verification event holds such a
  context and the dispatch event of the same attempt holds such arguments, so the two
  collaborators can see different identities.
\<close>

theorem context_and_dispatch_identity:
  assumes "distinct (map fst args)" and "dict_get args ''agent_id'' = Some v"
  shows "dict_get (build_policy_context c tool_name args) ''agent_id'' = Some v
       \<and> dict_get (args_with_passport c args) ''agent_id'' = Some (PStr (agent_id c))
       \<and> (heap s ! cur = args \<and> \<not> skip_verification opts \<and> has_session c
            \<and> get_policy_id_for_tool tool_name = Inr pid
            \<and> verify_policy env (world s) (agent_id c) pid (build_policy_context c tool_name args)
                 = (Inr d, w)
            \<and> allow d
          \<longrightarrow> (\<exists>ctx awp out tl.
                 fst (snd (attempt_body env c tool_name opts cur attempt s)) =
                   EvAttempt attempt cur args # EvVerify attempt (agent_id c) pid ctx (Inr d)
                     # EvExec attempt tool_name awp out # tl
                 \<and> dict_get ctx ''agent_id'' = Some v
                 \<and> dict_get awp ''agent_id'' = Some (PStr (agent_id c))))"
proof (intro conjI impI)
  show a: "dict_get (build_policy_context c tool_name args) ''agent_id'' = Some v"
    using assms by (simp add: context_lookup)
  show b: "dict_get (args_with_passport c args) ''agent_id'' = Some (PStr (agent_id c))"
    by (rule passport_agent_id)
  assume h: "heap s ! cur = args \<and> \<not> skip_verification opts \<and> has_session c
            \<and> get_policy_id_for_tool tool_name = Inr pid
            \<and> verify_policy env (world s) (agent_id c) pid (build_policy_context c tool_name args)
                 = (Inr d, w)
            \<and> allow d"
  then have tb: "fst (snd (try_block env c tool_name opts cur attempt s)) =
           [EvVerify attempt (agent_id c) pid (build_policy_context c tool_name args) (Inr d),
            EvExec attempt tool_name (args_with_passport c args)
              (fst (session_call_tool env w tool_name (args_with_passport c args)))]"
    using try_block_allowed[of opts c tool_name pid env s cur d w attempt] by simp
  obtain r evs s1 where t: "try_block env c tool_name opts cur attempt s = (r, evs, s1)"
    by (cases "try_block env c tool_name opts cur attempt s") auto
  from attempt_body_events_prefix[OF t] tb t h a b
  show "\<exists>ctx awp out tl.
                 fst (snd (attempt_body env c tool_name opts cur attempt s)) =
                   EvAttempt attempt cur args # EvVerify attempt (agent_id c) pid ctx (Inr d)
                     # EvExec attempt tool_name awp out # tl
                 \<and> dict_get ctx ''agent_id'' = Some v
                 \<and> dict_get awp ''agent_id'' = Some (PStr (agent_id c))"
    by auto
qed

theorem context_and_dispatch_identity_witness:
  "\<exists>ctx awp out tl.
     fst (snd (attempt_body allow_all gw ''send_message'' default_options 0 0 message_store)) =
       EvAttempt 0 0 [(''agent_id'', PStr ''ap_other''), (''channel'', PStr ''ops'')]
         # EvVerify 0 (agent_id gw) ''messaging.message.send.v1'' ctx (Inr allow_decision)
         # EvExec 0 ''send_message'' awp out # tl
     \<and> dict_get ctx ''agent_id'' = Some (PStr ''ap_other'')
     \<and> dict_get awp ''agent_id'' = Some (PStr (agent_id gw))
     \<and> PStr ''ap_other'' \<noteq> PStr (agent_id gw)"
proof -
  let ?args = "[(''agent_id'', PStr ''ap_other''), (''channel'', PStr ''ops'')]"
  have d: "distinct (map fst ?args)"
    by simp
  have g: "dict_get ?args ''agent_id'' = Some (PStr ''ap_other'')"
    by (simp add: dict_get_def)
  have h: "heap message_store ! 0 = ?args \<and> \<not> skip_verification default_options \<and> has_session gw
            \<and> get_policy_id_for_tool ''send_message'' = Inr ''messaging.message.send.v1''
            \<and> verify_policy allow_all (world message_store) (agent_id gw)
                 ''messaging.message.send.v1''
                 (build_policy_context gw ''send_message'' ?args) = (Inr allow_decision, ())
            \<and> allow allow_decision"
    by (simp add: default_options_def gw_def allow_all_def get_policy_id_for_tool_def
          tool_to_policy_map_def message_store_def allow_decision_def)
  have n: "PStr ''ap_other'' \<noteq> PStr (agent_id gw)"
    by (simp add: gw_def)
  from context_and_dispatch_identity[OF d g, where c = gw and tool_name = "''send_message''"
      and s = message_store and cur = 0 and opts = default_options
      and pid = "''messaging.message.send.v1''"
      and env = allow_all and d = allow_decision and w = "()" and attempt = 0] h n
  show ?thesis by blast
qed

section \<open>A denial without retry\<close>



section \<open>A tool without a policy\<close>

lemma resolver_error:
  "get_policy_id_for_tool tool_name = Inl e \<Longrightarrow> \<not> is_policy_denied e"
  by (auto simp: get_policy_id_for_tool_def split: option.splits if_splits)

lemma unmapped_attempt:
  assumes "get_policy_id_for_tool tool_name = Inl e" and "\<not> skip_verification opts"
  shows "attempt_body env c tool_name opts cur attempt s =
           (if attempt < max_retries opts - 1
            then (Continue e, [EvAttempt attempt cur (heap s ! cur),
                               EvSleep attempt (backoff_delay opts attempt)], s)
            else (Raise e, [EvAttempt attempt cur (heap s ! cur)], s))"
  using assms resolver_error[OF assms(1)]
  by (simp add: attempt_body_def try_block_def verify_step_def on_exception_def)

lemma unmapped_loop:
  assumes "get_policy_id_for_tool tool_name = Inl e" and "\<not> skip_verification opts"
  shows "k \<le> max_retries opts - 1 \<Longrightarrow>
         attempts_loop env c tool_name opts cur le [k..max_retries opts - 1] s =
           (Inl e,
            concat (map (\<lambda>i. EvAttempt i cur (heap s ! cur) #
                          (if i < max_retries opts - 1 then [EvSleep i (backoff_delay opts i)] else []))
                     [k..max_retries opts - 1]),
            s)"
proof (induction "nat (max_retries opts - 1 - k)" arbitrary: k le)
  case 0
  then have k: "k = max_retries opts - 1" by simp
  show ?case
    unfolding k[symmetric] by (simp add: unmapped_attempt[OF assms] k)
next
  case (Suc n)
  then have lt: "k < max_retries opts - 1" and n: "n = nat (max_retries opts - 1 - (k + 1))"
    and le': "k + 1 \<le> max_retries opts - 1"
    by linarith+
  have u: "[k..max_retries opts - 1] = k # [k + 1..max_retries opts - 1]"
    using lt by (simp add: upto_rec1)
  show ?case
    unfolding u using lt Suc.hyps(1)[OF n le', of "Some e"]
    by (simp add: unmapped_attempt[OF assms])
qed

text \<open>
  Claim C2, as amended. With \<open>skip_verification\<close> off and \<open>max_retries \<ge> 1\<close>, a call for a
  tool name that is absent from the tool-to-policy mapping never reaches the decision
  client or the executor: its events are attempt entries and sleeps only. The \<open>ValueError\<close>
  of the resolver is handled like any other exception: every attempt but the last is
  followed by the backoff sleep and a new attempt, so the call makes \<open>max_retries\<close> attempts
  and then raises the \<open>ValueError\<close>. The store of the collaborators is untouched.
\<close>

theorem unmapped_tool_is_retried:
  assumes "map_of tool_to_policy_map tool_name = None"
    and "\<not> skip_verification opts" and "has_aport_client c" and "1 \<le> max_retries opts"
  shows "call_tool env c tool_name args opts s =
           (Inl (ValueError (''No policy mapping found for tool: '' @ tool_name @
                   ''. Available tools: '' @ join '', '' (map fst tool_to_policy_map))),
            concat (map (\<lambda>i. EvAttempt i (length (heap s)) (heap s ! args) #
                          (if i < max_retries opts - 1
                           then [EvSleep i (retry_backoff opts * real_of_int (i + 1))] else []))
                     [0..max_retries opts - 1]),
            s\<lparr>heap := heap s @ [heap s ! args]\<rparr>)"
proof -
  have e: "get_policy_id_for_tool tool_name =
             Inl (ValueError (''No policy mapping found for tool: '' @ tool_name @
                   ''. Available tools: '' @ join '', '' (map fst tool_to_policy_map)))"
    using assms(1) by (simp add: get_policy_id_for_tool_def)
  have k: "0 \<le> max_retries opts - 1" using assms(4) by simp
  note loop = unmapped_loop[OF e assms(2) k, of env c "length (heap s)" None
        "s\<lparr>heap := heap s @ [heap s ! args]\<rparr>", unfolded backoff_delay_def]
  show ?thesis
    using assms(3) by (simp add: call_tool_def Let_def loop)
qed

theorem unmapped_tool_is_retried_witness:
  "call_tool allow_all gw ''nonexistent_tool'' 0 default_options refund_store =
     (Inl (ValueError (''No policy mapping found for tool: '' @ ''nonexistent_tool'' @
             ''. Available tools: '' @ join '', '' (map fst tool_to_policy_map))),
      [EvAttempt 0 1 [(''amount'', PInt 1000000), (''currency'', PStr ''USD'')], EvSleep 0 1,
       EvAttempt 1 1 [(''amount'', PInt 1000000), (''currency'', PStr ''USD'')], EvSleep 1 2,
       EvAttempt 2 1 [(''amount'', PInt 1000000), (''currency'', PStr ''USD'')]],
      \<lparr>heap = [[(''amount'', PInt 1000000), (''currency'', PStr ''USD'')],
               [(''amount'', PInt 1000000), (''currency'', PStr ''USD'')]], world = ()\<rparr>)"
proof -
  have h1: "map_of tool_to_policy_map ''nonexistent_tool'' = None"
    by (simp add: tool_to_policy_map_def)
  have h2: "\<not> skip_verification default_options" and h4: "1 \<le> max_retries default_options"
    by (simp_all add: default_options_def)
  have h3: "has_aport_client gw"
    by (simp add: gw_def)
  have u: "[0..max_retries default_options - 1] = [0, 1, 2]"
    by (simp add: default_options_def upto_rec1)
  from unmapped_tool_is_retried[OF h1 h2 h3 h4, of allow_all 0 refund_store]
  show ?thesis
    unfolding u by (simp add: refund_store_def default_options_def)
qed

text \<open>
  Claim C2 as stated fails. With the default options the call for an unknown tool makes
  three attempts and sleeps twice before it raises, and with \<open>skip_verification\<close> on the
  unknown tool is dispatched to the executor.
\<close>

theorem unmapped_tool_counterexample:
  "map event_attempt (filter is_attempt
      (fst (snd (call_tool allow_all gw ''nonexistent_tool'' 0 default_options refund_store))))
     = [0, 1, 2]
   \<and> length (filter is_sleep
      (fst (snd (call_tool allow_all gw ''nonexistent_tool'' 0 default_options refund_store)))) = 2
   \<and> filter is_exec
      (fst (snd (call_tool allow_all gw ''nonexistent_tool'' 0
                   (default_options\<lparr>skip_verification := True\<rparr>) refund_store)))
     = [EvExec 0 ''nonexistent_tool''
          [(''amount'', PInt 1000000), (''currency'', PStr ''USD''),
           (''agent_id'', PStr ''ap_gateway'')] (Inr ok_result)]"
  by code_simp

section \<open>A denial text in the tool result\<close>




section \<open>A refund that is denied three times\<close>

lemma denied_refund_run:
  "call_tool deny_all gw ''process_refund'' 0 retry_options refund_store =
     (Inl (PolicyDeniedError ''Policy denied: amount over limit'' (ByDecision deny_decision)),
      [EvAttempt 0 1 [(''amount'', PInt 1000000), (''currency'', PStr ''USD'')],
       EvVerify 0 ''ap_gateway'' ''finance.payment.refund.v1''
         [(''agent_id'', PStr ''ap_gateway''), (''amount'', PInt 1000000),
          (''currency'', PStr ''USD''), (''reason_code'', PStr ''customer_request'')]
         (Inr deny_decision),
       EvSleep 0 1,
       EvAttempt 1 1 [(''amount'', PInt 500000), (''currency'', PStr ''USD'')],
       EvVerify 1 ''ap_gateway'' ''finance.payment.refund.v1''
         [(''agent_id'', PStr ''ap_gateway''), (''amount'', PInt 500000),
          (''currency'', PStr ''USD''), (''reason_code'', PStr ''customer_request'')]
         (Inr deny_decision),
       EvSleep 1 2,
       EvAttempt 2 1 [(''amount'', PInt 250000), (''currency'', PStr ''USD'')],
       EvVerify 2 ''ap_gateway'' ''finance.payment.refund.v1''
         [(''agent_id'', PStr ''ap_gateway''), (''amount'', PInt 250000),
          (''currency'', PStr ''USD''), (''reason_code'', PStr ''customer_request'')]
         (Inr deny_decision)],
      \<lparr>heap = [[(''amount'', PInt 1000000), (''currency'', PStr ''USD'')],
               [(''amount'', PInt 250000), (''currency'', PStr ''USD'')]], world = ()\<rparr>)"
  by code_simp

section \<open>The backoff between attempts\<close>

lemma call_event:
  "is_verify ev \<or> is_exec ev \<Longrightarrow> \<not> is_attempt ev \<and> \<not> is_sleep ev"
  by (cases ev) auto

lemma block_single_attempt:
  assumes "attempt_body env c tool_name opts cur attempt s = (fl, blk, s')"
  obtains rest where "blk = EvAttempt attempt cur (heap s ! cur) # rest"
    and "\<forall>ev\<in>set rest. \<not> is_attempt ev"
    and "(\<exists>e. fl = Continue e) \<longrightarrow>
           (\<exists>mid. rest = mid @ [EvSleep attempt (backoff_delay opts attempt)])"
proof -
  from attempt_body_shape[OF assms] obtain r mid s1 tl where
    t: "try_block env c tool_name opts cur attempt s = (r, mid, s1)"
    and e: "blk = EvAttempt attempt cur (heap s ! cur) # mid @ tl"
    and tl: "(tl = [] \<and> (\<forall>e. fl \<noteq> Continue e))
              \<or> (tl = [EvSleep attempt (backoff_delay opts attempt)] \<and> (\<exists>e. fl = Continue e)
                  \<and> attempt < max_retries opts - 1)"
    by blast
  from try_block_calls[OF t] have "\<forall>ev\<in>set mid. \<not> is_attempt ev"
    using call_event by blast
  with e tl show ?thesis by (intro that[of "mid @ tl"]) auto
qed






section \<open>Halving\<close>





section \<open>The working copy of the arguments\<close>

lemma attempt_body_heap:
  assumes "attempt_body env c tool_name opts cur attempt s = (fl, blk, s')"
  shows "heap s' = heap s \<or>
         (\<exists>d e. fl = Continue e \<and> is_policy_denied e \<and>
                adjust_args tool_name (heap s ! cur) = Inr d \<and> heap s' = (heap s)[cur := d])"
proof -
  obtain r mid s1 where t: "try_block env c tool_name opts cur attempt s = (r, mid, s1)"
    by (cases "try_block env c tool_name opts cur attempt s") auto
  note h = try_block_heap[OF t]
  show ?thesis
    using assms t h
    by (auto simp: attempt_body_def on_policy_denied_def on_exception_def Let_def
          split: sum.splits prod.splits if_splits)
qed


lemma loop_heap:
  assumes "attempts_loop env c tool_name opts cur le as s = (out, evs, s')"
  shows "length (heap s') = length (heap s) \<and> (\<forall>r. r \<noteq> cur \<longrightarrow> heap s' ! r = heap s ! r)"
  using assms
proof (induction as arbitrary: le s out evs s')
  case Nil
  then show ?case by simp
next
  case (Cons a as)
  obtain fl blk s1 where b: "attempt_body env c tool_name opts cur a s = (fl, blk, s1)"
    by (cases "attempt_body env c tool_name opts cur a s") auto
  from attempt_body_heap[OF b]
  have h1: "length (heap s1) = length (heap s) \<and> (\<forall>r. r \<noteq> cur \<longrightarrow> heap s1 ! r = heap s ! r)"
    by auto
  show ?case
  proof (cases fl)
    case (Continue e)
    obtain out2 evs2 s2 where r: "attempts_loop env c tool_name opts cur (Some e) as s1 = (out2, evs2, s2)"
      by (cases "attempts_loop env c tool_name opts cur (Some e) as s1") auto
    from Cons.prems b Continue r have "s' = s2" by simp
    with Cons.IH[OF r] h1 show ?thesis by simp
  next
    case (Return x)
    with Cons.prems b have "s' = s1" by simp
    with h1 show ?thesis by simp
  next
    case (Raise x)
    with Cons.prems b have "s' = s1" by simp
    with h1 show ?thesis by simp
  qed
qed









lemma call_tool_loop:
  assumes "call_tool env c tool_name args opts s = (out, evs, s')"
  shows "(\<not> has_aport_client c \<and> evs = [] \<and> s' = s) \<or>
         attempts_loop env c tool_name opts (length (heap s)) None [0..max_retries opts - 1]
           (s\<lparr>heap := heap s @ [heap s ! args]\<rparr>) = (out, evs, s')"
  using assms by (auto simp: call_tool_def Let_def split: if_splits)




text \<open>
  Claim C9, as amended. A call never writes to a dictionary that existed before it: the
  store it leaves agrees with the store it found on every old reference, so the caller's
  \<open>args\<close> is unchanged whether the call returns or raises. The call allocates at most one
  dictionary, the copy \<open>current_args\<close>, and every attempt works on that one object.
\<close>

theorem caller_args_unchanged:
  assumes "call_tool env c tool_name args opts s = (out, evs, s')"
  shows "take (length (heap s)) (heap s') = heap s
       \<and> (args < length (heap s) \<longrightarrow> heap s' ! args = heap s ! args)
       \<and> length (heap s') \<le> length (heap s) + 1
       \<and> (\<forall>i r ca. EvAttempt i r ca \<in> set evs \<longrightarrow> r = length (heap s))"
proof -
  have fresh: "\<forall>i r ca. EvAttempt i r ca \<in> set evs \<longrightarrow> r = length (heap s)"
    using assms
  proof (rule call_tool_events)
    fix attempt :: int and s1 fl blk s2
    assume b: "attempt_body env c tool_name opts (length (heap s)) attempt s1 = (fl, blk, s2)"
    obtain rest where "blk = EvAttempt attempt (length (heap s)) (heap s1 ! length (heap s)) # rest"
      and "\<forall>ev\<in>set rest. \<not> is_attempt ev"
      by (rule block_single_attempt[OF b])
    then show "\<forall>i r ca. EvAttempt i r ca \<in> set blk \<longrightarrow> r = length (heap s)"
      by (metis event.inject(1) is_attempt.simps(1) set_ConsD)
  qed (auto, blast)
  from call_tool_loop[OF assms]
  have "take (length (heap s)) (heap s') = heap s \<and> length (heap s') \<le> length (heap s) + 1"
  proof
    assume "\<not> has_aport_client c \<and> evs = [] \<and> s' = s"
    then show ?thesis by simp
  next
    assume "attempts_loop env c tool_name opts (length (heap s)) None [0..max_retries opts - 1]
           (s\<lparr>heap := heap s @ [heap s ! args]\<rparr>) = (out, evs, s')"
    from loop_heap[OF this]
    have len: "length (heap s') = length (heap s) + 1"
      and same: "\<forall>r. r \<noteq> length (heap s) \<longrightarrow> heap s' ! r = (heap s @ [heap s ! args]) ! r"
      by auto
    have "take (length (heap s)) (heap s') = heap s"
    proof (rule nth_equalityI)
      show "length (take (length (heap s)) (heap s')) = length (heap s)" using len by simp
    next
      fix i assume "i < length (take (length (heap s)) (heap s'))"
      then have i: "i < length (heap s)" by simp
      with same have "heap s' ! i = (heap s @ [heap s ! args]) ! i" by simp
      with i show "take (length (heap s)) (heap s') ! i = heap s ! i"
        by (simp add: nth_append)
    qed
    with len show ?thesis by simp
  qed
  then have t: "take (length (heap s)) (heap s') = heap s"
    and l: "length (heap s') \<le> length (heap s) + 1" by auto
  have "args < length (heap s) \<longrightarrow> heap s' ! args = heap s ! args"
  proof
    assume a: "args < length (heap s)"
    then have "take (length (heap s)) (heap s') ! args = heap s' ! args" by simp
    with t show "heap s' ! args = heap s ! args" by simp
  qed
  with t l fresh show ?thesis by blast
qed

theorem caller_args_unchanged_witness:
  "take (length (heap refund_store))
     (heap (snd (snd (call_tool deny_all gw ''process_refund'' 0 retry_options refund_store))))
     = heap refund_store
   \<and> heap (snd (snd (call_tool deny_all gw ''process_refund'' 0 retry_options refund_store))) ! 0
       = [(''amount'', PInt 1000000), (''currency'', PStr ''USD'')]"
proof -
  note th = caller_args_unchanged[OF denied_refund_run]
  have l: "0 < length (heap refund_store)"
    by (simp add: refund_store_def)
  from th[THEN conjunct1] th[THEN conjunct2, THEN conjunct1, rule_format, OF l]
  show ?thesis
    unfolding denied_refund_run by (simp add: refund_store_def)
qed

text \<open>
  Claim C9 as stated fails: the arguments of an attempt are not a new dictionary. The
  three attempts of the denied refund work on the same object, reference 1, which holds
  the amounts 1000000, 500000 and 250000 in turn; after the call it holds 250000, and the
  arguments of the first two attempts are gone from it.
\<close>

theorem current_args_mutated_counterexample:
  "attempt_refs
     (fst (snd (call_tool deny_all gw ''process_refund'' 0 retry_options refund_store)))
     = [1, 1, 1]
   \<and> attempt_args
     (fst (snd (call_tool deny_all gw ''process_refund'' 0 retry_options refund_store)))
     = [[(''amount'', PInt 1000000), (''currency'', PStr ''USD'')],
        [(''amount'', PInt 500000), (''currency'', PStr ''USD'')],
        [(''amount'', PInt 250000), (''currency'', PStr ''USD'')]]
   \<and> heap (snd (snd (call_tool deny_all gw ''process_refund'' 0 retry_options refund_store))) ! 1
     = [(''amount'', PInt 250000), (''currency'', PStr ''USD'')]"
  unfolding denied_refund_run by simp

section \<open>Failures\<close>










end
